theory Spec2Isabelle
  imports Main
begin

section \<open>Collaborators of the GitHub pull-request service\<close>

text \<open>
  The service of \<^verbatim>\<open>service/github/github.go\<close> talks to GitHub through the
  go-github client and cleans paths with Go's \<^verbatim>\<open>path/filepath\<close>. Neither is code of
  the repository. The client is a parameter of the model (a record of functions over an
  abstract remote state \<open>'w\<close>), so every theorem holds for every behaviour of the remote;
  the path functions are written out for a Unix target, following their documentation.
\<close>

subsection \<open>Go's \<^verbatim>\<open>path/filepath\<close> on a Unix target\<close>

text \<open>\<^verbatim>\<open>strings.Split(s, "/")\<close>: the pieces between the slashes, empty pieces kept.\<close>

fun split_slash :: "string \<Rightarrow> string list" where
  "split_slash [] = [[]]"
| "split_slash (c # cs) =
     (if c = CHR ''/'' then [] # split_slash cs
      else (case split_slash cs of
              [] \<Rightarrow> [[c]]
            | p # ps \<Rightarrow> (c # p) # ps))"

text \<open>\<^verbatim>\<open>strings.Join(elems, "/")\<close>.\<close>

fun join_slash :: "string list \<Rightarrow> string" where
  "join_slash [] = []"
| "join_slash [p] = p"
| "join_slash (p # q # ps) = p @ CHR ''/'' # join_slash (q # ps)"

text \<open>
  One name of a path meets the names kept so far (innermost last): a \<^verbatim>\<open>..\<close> removes the
  name before it, unless there is none or it is itself \<^verbatim>\<open>..\<close>; at the start of a rooted
  path it is dropped, at the start of a relative one it is kept.
\<close>

definition clean_step :: "bool \<Rightarrow> string list \<Rightarrow> string \<Rightarrow> string list" where
  "clean_step rooted kept name =
     (if name = ''..'' then
        (if kept \<noteq> [] \<and> last kept \<noteq> ''..'' then butlast kept
         else if rooted then kept
         else kept @ [name])
      else kept @ [name])"

text \<open>
  \<^verbatim>\<open>filepath.Clean\<close>: repeated separators become one, every \<^verbatim>\<open>.\<close> name goes, every
  inner \<^verbatim>\<open>..\<close> goes with the name before it, the result ends in a slash only when it is
  the root, and the empty result is \<^verbatim>\<open>.\<close>.
\<close>

definition filepath_Clean :: "string \<Rightarrow> string" where
  "filepath_Clean path =
     (let rooted = (path \<noteq> [] \<and> hd path = CHR ''/'');
          names = filter (\<lambda>n. n \<noteq> [] \<and> n \<noteq> ''.'') (split_slash path);
          out = join_slash (foldl (clean_step rooted) [] names)
      in if rooted then CHR ''/'' # out
         else if out = [] then ''.''
         else out)"

text \<open>
  \<^verbatim>\<open>filepath.Join\<close>: the elements from the first non-empty one on, joined with slashes
  and cleaned; the empty string when every element is empty.
\<close>

fun filepath_Join :: "string list \<Rightarrow> string" where
  "filepath_Join [] = []"
| "filepath_Join (e # es) =
     (if e \<noteq> [] then filepath_Clean (join_slash (e # es)) else filepath_Join es)"

text \<open>\<^verbatim>\<open>filepath.ToSlash\<close>: the separator already is the slash.\<close>

definition filepath_ToSlash :: "string \<Rightarrow> string" where
  "filepath_ToSlash path = path"

subsection \<open>The go-github client\<close>

text \<open>
  The errors a call of the client can return: an \<^verbatim>\<open>*github.ErrorResponse\<close> with the
  HTTP status code of its response, the two rate-limit rejections, and any other error
  (a network failure, \<^verbatim>\<open>errors.New\<close>).
\<close>

datatype error =
  ErrorResponse int
  | RateLimitError
  | AbuseRateLimitError
  | errorString string

record ListOptions =
  Page :: int
  PerPage :: int

record Response =
  NextPage :: int

text \<open>
  \<^verbatim>\<open>github.PullRequestComment\<close>: the three fields the service reads are pointers,
  \<open>None\<close> is \<^verbatim>\<open>nil\<close>.
\<close>

record PullRequestComment =
  prc_Path :: "string option"
  prc_Position :: "int option"
  prc_Body :: "string option"

definition GetPath :: "PullRequestComment \<Rightarrow> string" where
  "GetPath c = (case prc_Path c of None \<Rightarrow> [] | Some p \<Rightarrow> p)"

definition GetPosition :: "PullRequestComment \<Rightarrow> int" where
  "GetPosition c = (case prc_Position c of None \<Rightarrow> 0 | Some n \<Rightarrow> n)"

definition GetBody :: "PullRequestComment \<Rightarrow> string" where
  "GetBody c = (case prc_Body c of None \<Rightarrow> [] | Some b \<Rightarrow> b)"

record DraftReviewComment =
  drc_Path :: "string option"
  drc_Position :: "int option"
  drc_Body :: "string option"

record PullRequestReviewRequest =
  CommitID :: "string option"
  Event :: "string option"
  Comments :: "DraftReviewComment list"

text \<open>
  The two calls of \<^verbatim>\<open>cli.PullRequests\<close> the service makes. Each takes the state of
  the remote and returns the next one with its answer: a page of comments with the
  response's \<^verbatim>\<open>NextPage\<close>, or an error; \<open>None\<close> for a review that was accepted.
\<close>

record 'w Client =
  ListComments :: "'w \<Rightarrow> string \<Rightarrow> string \<Rightarrow> int \<Rightarrow> ListOptions
                     \<Rightarrow> (error + PullRequestComment list \<times> Response) \<times> 'w"
  CreateReview :: "'w \<Rightarrow> string \<Rightarrow> string \<Rightarrow> int \<Rightarrow> PullRequestReviewRequest
                     \<Rightarrow> error option \<times> 'w"

text \<open>
  What a run does to the outside, in order: the reviews it sent with
  \<^verbatim>\<open>CreateReview\<close> and the seconds it slept.
\<close>

datatype event =
  EvCreateReview PullRequestReviewRequest
  | EvSleep nat

fun reviews_of :: "event list \<Rightarrow> DraftReviewComment list list" where
  "reviews_of [] = []"
| "reviews_of (EvCreateReview r # evs) = Comments r # reviews_of evs"
| "reviews_of (EvSleep n # evs) = reviews_of evs"

section \<open>The findings and the service's state\<close>

text \<open>
  \<^verbatim>\<open>reviewdog.CheckResult\<close> and \<^verbatim>\<open>reviewdog.Comment\<close>. The declarations are not
  among the sources; the fields are the ones \<^verbatim>\<open>github.go\<close> and \<^verbatim>\<open>filter_test.go\<close>
  use. A comment embeds a check result (\<^verbatim>\<open>c.Path\<close> is the result's path), which the
  record extension says: the result is taken as a part of the comment, each comment
  with its own. Every other field sits in the record's \<open>more\<close> part, and the theorems
  hold for every such extension.
\<close>

record CheckResult =
  Path :: string
  Lnum :: int

record Comment = CheckResult +
  LnumDiff :: int
  ToolName :: string

text \<open>
  The service holds pointers to the comments of its caller
  (\<^verbatim>\<open>postComments []*reviewdog.Comment\<close>) and writes through them, so the comments live
  in a store and the buffer lists their addresses. A pointer that reaches the service
  points to a comment: \<^verbatim>\<open>nil\<close> is not modelled. Calls are modelled one at a time, so
  the mutex \<^verbatim>\<open>muComments\<close> has no counterpart.
\<close>

type_synonym addr = nat

type_synonym 'a store = "addr \<Rightarrow> 'a Comment_scheme"

text \<open>
  Modelled from the spec: \<^verbatim>\<open>serviceutil.PostedComments\<close> is not among the sources.
  The spec (4.2): the set of (path, diff position, body) already present on a review, set
  membership only, no ordering.
\<close>

type_synonym PostedComments = "(string \<times> int \<times> string) set"

text \<open>
  Modelled from the spec: \<^verbatim>\<open>PostedComments.AddPostedComment\<close> is not among the
  sources. It puts (path, diff position, body) into the set.
\<close>

definition AddPostedComment :: "PostedComments \<Rightarrow> string \<Rightarrow> int \<Rightarrow> string \<Rightarrow> PostedComments" where
  "AddPostedComment p path lineNum body = insert (path, lineNum, body) p"

text \<open>
  Modelled from the spec: \<^verbatim>\<open>PostedComments.IsPosted\<close> is not among the sources. The
  spec (4.2): an exact-match lookup on the finding's path, the diff position and the
  finding's comment body. \<^verbatim>\<open>serviceutil.CommentBody\<close>, the text posted for a comment, is
  not among the sources either; it is the parameter \<open>cb\<close> of everything that uses it.
\<close>

definition IsPosted ::
  "('a Comment_scheme \<Rightarrow> string) \<Rightarrow> PostedComments \<Rightarrow> 'a Comment_scheme \<Rightarrow> int \<Rightarrow> bool" where
  "IsPosted cb p c lineNum = ((Path c, lineNum, cb c) \<in> p)"

definition maxCommentsPerRequest :: nat where
  "maxCommentsPerRequest = 25"

record 'w GitHubPullRequest =
  cli :: "'w Client"
  owner :: string
  repo :: string
  pr :: int
  sha :: string
  postComments :: "addr list"
  postedcs :: PostedComments
  wd :: string

section \<open>The service\<close>

subsection \<open>Post\<close>

text \<open>
  \<^verbatim>\<open>Post\<close> writes the joined path into the caller's comment and appends the pointer to
  the buffer. It returns \<^verbatim>\<open>nil\<close>, the service and the store.
\<close>

definition Post ::
  "'w GitHubPullRequest \<Rightarrow> 'a store \<Rightarrow> addr
     \<Rightarrow> error option \<times> 'w GitHubPullRequest \<times> 'a store" where
  "Post g st c =
     (let st1 = st(c := (st c)\<lparr>Path := filepath_ToSlash (filepath_Join [wd g, Path (st c)])\<rparr>);
          g1 = g\<lparr>postComments := postComments g @ [c]\<rparr>
      in (None, g1, st1))"

subsection \<open>Listing the comments of the pull request\<close>

text \<open>
  \<^verbatim>\<open>listAllPullRequestsComments\<close> follows \<^verbatim>\<open>NextPage\<close> until it is 0. A remote that
  never answers 0 keeps it going for ever: the value is \<open>None\<close> then.
\<close>

partial_function (option) listAllPullRequestsComments ::
  "'w Client \<Rightarrow> string \<Rightarrow> string \<Rightarrow> int \<Rightarrow> ListOptions \<Rightarrow> 'w
     \<Rightarrow> ((error + PullRequestComment list) \<times> 'w) option" where
  "listAllPullRequestsComments cl ow re n opts w =
     (case ListComments cl w ow re n opts of
        (Inl err, w1) \<Rightarrow> Some (Inl err, w1)
      | (Inr (comments, resp), w1) \<Rightarrow>
          if NextPage resp = 0 then Some (Inr comments, w1)
          else Option.bind
                 (listAllPullRequestsComments cl ow re n
                    \<lparr>Page = NextPage resp, PerPage = PerPage opts\<rparr> w1)
                 (\<lambda>(r, w2). case r of
                      Inl err \<Rightarrow> Some (Inl err, w2)
                    | Inr restComments \<Rightarrow> Some (Inr (comments @ restComments), w2)))"

definition comment ::
  "'w GitHubPullRequest \<Rightarrow> 'w \<Rightarrow> ((error + PullRequestComment list) \<times> 'w) option" where
  "comment g w =
     listAllPullRequestsComments (cli g) (owner g) (repo g) (pr g)
       \<lparr>Page = 0, PerPage = 100\<rparr> w"

subsection \<open>setPostedComment\<close>

fun setPostedComment_loop :: "PullRequestComment list \<Rightarrow> PostedComments \<Rightarrow> PostedComments" where
  "setPostedComment_loop [] p = p"
| "setPostedComment_loop (c # cs) p =
     (if prc_Position c = None \<or> prc_Path c = None \<or> prc_Body c = None
      then setPostedComment_loop cs p
      else setPostedComment_loop cs
             (AddPostedComment p (GetPath c) (GetPosition c) (GetBody c)))"

text \<open>
  The index is emptied before the comments are fetched, so it stays empty when the fetch
  fails.
\<close>

definition setPostedComment ::
  "'w GitHubPullRequest \<Rightarrow> 'w \<Rightarrow> (error option \<times> 'w GitHubPullRequest \<times> 'w) option" where
  "setPostedComment g w =
     (let g1 = g\<lparr>postedcs := {}\<rparr> in
      case comment g1 w of
        None \<Rightarrow> None
      | Some (Inl err, w1) \<Rightarrow> Some (Some err, g1, w1)
      | Some (Inr cs, w1) \<Rightarrow>
          Some (None, g1\<lparr>postedcs := setPostedComment_loop cs (postedcs g1)\<rparr>, w1))"

subsection \<open>postGitHubComments\<close>

definition min_go :: "nat \<Rightarrow> nat \<Rightarrow> nat" where
  "min_go x y = (if x > y then y else x)"

text \<open>
  One review per call, with the first \<^verbatim>\<open>maxCommentsPerRequest\<close> comments; the rest
  goes to the recursive call after a sleep of \<open>2 ^ cnt\<close> seconds. (Go computes the seconds
  in \<^verbatim>\<open>float64\<close> and \<^verbatim>\<open>int\<close> and the duration in nanoseconds in \<^verbatim>\<open>int64\<close>, exact
  up to \<open>cnt = 33\<close>, that is for up to 850 comments.)
\<close>

function postGitHubComments ::
  "'w GitHubPullRequest \<Rightarrow> DraftReviewComment list \<Rightarrow> nat \<Rightarrow> 'w
     \<Rightarrow> error option \<times> 'w \<times> event list" where
  "postGitHubComments g comments cnt w =
     (if length comments = 0 then (None, w, [])
      else
        (let review = \<lparr>CommitID = Some (sha g), Event = Some ''COMMENT'',
                       Comments = take (min_go maxCommentsPerRequest (length comments)) comments\<rparr>
         in case CreateReview (cli g) w (owner g) (repo g) (pr g) review of
              (Some err, w1) \<Rightarrow> (Some err, w1, [EvCreateReview review])
            | (None, w1) \<Rightarrow>
                if length comments > maxCommentsPerRequest then
                  (case postGitHubComments g (drop maxCommentsPerRequest comments) (cnt + 1) w1 of
                     (r, w2, evs) \<Rightarrow> (r, w2, EvCreateReview review # EvSleep (2 ^ (cnt + 1)) # evs))
                else (None, w1, [EvCreateReview review])))"
  by pat_completeness auto
termination
  by (relation "measure (\<lambda>(g, comments, cnt, w). length comments)")
     (auto simp: maxCommentsPerRequest_def)

declare postGitHubComments.simps [simp del]

subsection \<open>postAsReviewComment and Flush\<close>

text \<open>
  The body of the loop of \<^verbatim>\<open>postAsReviewComment\<close> for one buffered comment, on the
  two lists of the loop: the draft comments of the review and the comments left for a
  summary.
\<close>

definition postAsReviewComment_step ::
  "('a Comment_scheme \<Rightarrow> string) \<Rightarrow> PostedComments \<Rightarrow> 'a store
     \<Rightarrow> DraftReviewComment list \<times> addr list \<Rightarrow> addr \<Rightarrow> DraftReviewComment list \<times> addr list" where
  "postAsReviewComment_step cb p st acc c =
     (case acc of (comments, remaining) \<Rightarrow>
        if IsPosted cb p (st c) (LnumDiff (st c)) then (comments, remaining)
        else if length comments \<ge> maxCommentsPerRequest \<and> False
        then (comments, remaining @ [c])
        else (comments @ [\<lparr>drc_Path = Some (Path (st c)),
                             drc_Position = Some (LnumDiff (st c)),
                             drc_Body = Some (cb (st c))\<rparr>],
              remaining))"

definition postAsReviewComment_loop ::
  "('a Comment_scheme \<Rightarrow> string) \<Rightarrow> PostedComments \<Rightarrow> 'a store \<Rightarrow> addr list
     \<Rightarrow> DraftReviewComment list \<times> addr list" where
  "postAsReviewComment_loop cb p st cs = foldl (postAsReviewComment_step cb p st) ([], []) cs"

definition postAsReviewComment ::
  "('a Comment_scheme \<Rightarrow> string) \<Rightarrow> 'w GitHubPullRequest \<Rightarrow> 'a store \<Rightarrow> 'w
     \<Rightarrow> error option \<times> 'w \<times> event list" where
  "postAsReviewComment cb g st w =
     (case postAsReviewComment_loop cb (postedcs g) st (postComments g) of
        (comments, remaining) \<Rightarrow> postGitHubComments g comments 0 w)"

text \<open>
  \<^verbatim>\<open>Flush\<close>: the error (or \<^verbatim>\<open>nil\<close>), the service, the remote and the events of the
  run; \<open>None\<close> when listing the comments never ends.
\<close>

definition Flush ::
  "('a Comment_scheme \<Rightarrow> string) \<Rightarrow> 'w GitHubPullRequest \<Rightarrow> 'a store \<Rightarrow> 'w
     \<Rightarrow> (error option \<times> 'w GitHubPullRequest \<times> 'w \<times> event list) option" where
  "Flush cb g st w =
     (case setPostedComment g w of
        None \<Rightarrow> None
      | Some (Some err, g1, w1) \<Rightarrow> Some (Some err, g1, w1, [])
      | Some (None, g1, w1) \<Rightarrow>
          (case postAsReviewComment cb g1 st w1 of
             (r, w2, evs) \<Rightarrow> Some (r, g1, w2, evs)))"

section \<open>The filter\<close>

text \<open>
  \<^verbatim>\<open>filter_test.go\<close> calls \<^verbatim>\<open>FilterCheck\<close> on the result of
  \<^verbatim>\<open>diff.ParseMultiFile\<close>; neither function is among the sources, nor are the types of
  the parsed diff. They are modelled from the spec (sections 3 and 4.1); the type
  \<^verbatim>\<open>FilteredCheck\<close> has the fields the test writes.
\<close>

text \<open>
  Modelled from the spec: the lines of a parsed diff are not among the sources. The spec
  (3): each line of a hunk is tagged context, addition or deletion and has its text.
\<close>

datatype LineTag = Context | Addition | Deletion

record Line =
  tag :: LineTag
  content :: string

text \<open>
  Modelled from the spec: the hunk model that \<^verbatim>\<open>diff.ParseMultiFile\<close> produces is
  not among the sources. The spec (3): a hunk is one \<^verbatim>\<open>@@\<close> block of one file pair,
  with its old range, its new range (first line, number of lines) and its lines in
  order.
\<close>

record Hunk =
  oldRange :: "int \<times> int"
  newRange :: "int \<times> int"
  lines :: "Line list"

text \<open>
  Modelled from the spec: the type \<^verbatim>\<open>diff.FileDiff\<close> is not among the sources. The
  spec (3, 6): the parser gives the hunks of each file pair; the index is keyed by the
  path of the new file.
\<close>

record FileDiff =
  PathOld :: string
  PathNew :: string
  Hunks :: "Hunk list"

text \<open>
  Modelled from the spec: the index of a file's lines is not among the sources. The
  spec (3): per file, new-file line number to diff position, for context and addition
  lines only; a deletion takes a position and has no new-file line number. The position
  is 1 on the first line after the file's first hunk header and grows by one with every
  line, through all the hunks of the file. The entries of the lines from \<open>lnum\<close> and
  \<open>pos\<close> on, and the position after them:
\<close>

fun index_lines :: "Line list \<Rightarrow> int \<Rightarrow> int \<Rightarrow> (int \<times> int \<times> LineTag) list \<times> int" where
  "index_lines [] lnum pos = ([], pos)"
| "index_lines (l # ls) lnum pos =
     (if tag l = Deletion then index_lines ls lnum (pos + 1)
      else (case index_lines ls (lnum + 1) (pos + 1) of
              (es, pos') \<Rightarrow> ((lnum, pos, tag l) # es, pos')))"

text \<open>
  Modelled from the spec: as above, for the hunks of one file. A hunk's lines are
  numbered from the first line of its new range; the position runs on from hunk to hunk.
\<close>

fun index_hunks :: "Hunk list \<Rightarrow> int \<Rightarrow> (int \<times> int \<times> LineTag) list" where
  "index_hunks [] pos = []"
| "index_hunks (h # hs) pos =
     (case index_lines (lines h) (fst (newRange h)) pos of
        (es, pos') \<Rightarrow> es @ index_hunks hs pos')"

text \<open>
  Modelled from the spec: the type of the index is not among the sources. The spec (3):
  keyed by new-file path, and per file the entries of its lines: new-file line number,
  diff position, and the tag of the line at that position.
\<close>

type_synonym DiffIndex = "(string \<times> (int \<times> int \<times> LineTag) list) list"

text \<open>
  Modelled from the spec: \<^verbatim>\<open>BuildIndex\<close> (4.1) is not among the sources. The index
  is keyed by new-file path; each file's positions start at 1.
\<close>

definition BuildIndex :: "FileDiff list \<Rightarrow> DiffIndex" where
  "BuildIndex fds = map (\<lambda>fd. (PathNew fd, index_hunks (Hunks fd) 1)) fds"

text \<open>
  Modelled from the spec: the lookup of the index is not among the sources. The spec
  (2): is (path, new-file line) present in the diff, and at what diff position? The
  answer is the position and the tag of the line there, from the first entry of the
  path and of the line.
\<close>

definition lookup_line :: "DiffIndex \<Rightarrow> string \<Rightarrow> int \<Rightarrow> (int \<times> LineTag) option" where
  "lookup_line idx path lnum =
     (case map_of idx path of
        None \<Rightarrow> None
      | Some es \<Rightarrow> map_of es lnum)"

text \<open>
  Modelled from the spec: the type \<^verbatim>\<open>difffilter.Mode\<close> is not among the sources; the
  test names \<^verbatim>\<open>ModeAdded\<close> and \<^verbatim>\<open>ModeDiffContext\<close>. The spec (4.1) has the four
  modes \<^verbatim>\<open>added\<close>, \<^verbatim>\<open>diff_context\<close>, \<^verbatim>\<open>file\<close> and \<^verbatim>\<open>nofilter\<close>.
\<close>

datatype Mode = ModeAdded | ModeDiffContext | ModeFile | ModeNoFilter

text \<open>\<^verbatim>\<open>FilteredCheck\<close>, with the fields \<^verbatim>\<open>filter_test.go\<close> writes.\<close>

record FilteredCheck =
  fc_CheckResult :: CheckResult
  InDiff :: bool
  fc_LnumDiff :: int

text \<open>
  Modelled from the spec: the path handling of the filter is not among the sources. The
  spec (4.1): the finding's path loses \<open>stripDepth\<close> leading components and is joined to
  the working subdirectory before it is matched against the diff's paths. A path with no
  more than \<open>stripDepth\<close> components stays as it is (the spec's example in section 8:
  \<^verbatim>\<open>foo.go\<close> from \<^verbatim>\<open>sub/\<close> with depth 1 matches \<^verbatim>\<open>sub/foo.go\<close>).
\<close>

definition normalize_path :: "nat \<Rightarrow> string \<Rightarrow> string \<Rightarrow> string" where
  "normalize_path strip relDir path =
     (let names = split_slash path;
          stripped = (if length names > strip then join_slash (drop strip names) else path)
      in filepath_Join [relDir, stripped])"

text \<open>
  Modelled from the spec: the filter's decision for one finding is not among the
  sources. The spec (4.1): \<^verbatim>\<open>added\<close> keeps a finding whose line maps to a position of
  an addition line, \<^verbatim>\<open>diff_context\<close> one whose line maps to any position, \<^verbatim>\<open>file\<close>
  one whose path is in the diff (no position required), \<^verbatim>\<open>nofilter\<close> every finding,
  with the position left unset.
\<close>

definition filter_finding :: "DiffIndex \<Rightarrow> nat \<Rightarrow> string \<Rightarrow> Mode \<Rightarrow> CheckResult \<Rightarrow> FilteredCheck" where
  "filter_finding idx strip relDir mode r =
     (let path = normalize_path strip relDir (Path r);
          hit = lookup_line idx path (Lnum r);
          out = \<lparr>fc_CheckResult = r, InDiff = False, fc_LnumDiff = 0\<rparr>
      in case mode of
           ModeNoFilter \<Rightarrow> out\<lparr>InDiff := True\<rparr>
         | ModeFile \<Rightarrow>
             (case hit of
                Some (pos, t) \<Rightarrow> out\<lparr>InDiff := True, fc_LnumDiff := pos\<rparr>
              | None \<Rightarrow> out\<lparr>InDiff := (map_of idx path \<noteq> None)\<rparr>)
         | ModeDiffContext \<Rightarrow>
             (case hit of
                Some (pos, t) \<Rightarrow> out\<lparr>InDiff := True, fc_LnumDiff := pos\<rparr>
              | None \<Rightarrow> out)
         | ModeAdded \<Rightarrow>
             (case hit of
                Some (pos, t) \<Rightarrow>
                  if t = Addition then out\<lparr>InDiff := True, fc_LnumDiff := pos\<rparr> else out
              | None \<Rightarrow> out))"

text \<open>
  Modelled from the spec: \<^verbatim>\<open>FilterCheck\<close> is not among the sources. The spec (2, 4.1):
  a pure function of the findings, the diff, the strip depth, the enclosing directory
  and the mode, to the findings annotated with \<^verbatim>\<open>InDiff\<close> and the diff position, in
  the order given.
\<close>

definition FilterCheck ::
  "CheckResult list \<Rightarrow> FileDiff list \<Rightarrow> nat \<Rightarrow> string \<Rightarrow> Mode \<Rightarrow> FilteredCheck list" where
  "FilterCheck results fds strip relDir mode =
     map (filter_finding (BuildIndex fds) strip relDir mode) results"

text \<open>The findings a mode keeps are the ones it marks in-diff.\<close>

definition kept :: "CheckResult list \<Rightarrow> FileDiff list \<Rightarrow> nat \<Rightarrow> string \<Rightarrow> Mode \<Rightarrow> CheckResult set" where
  "kept results fds strip relDir mode =
     set (map fc_CheckResult (filter InDiff (FilterCheck results fds strip relDir mode)))"

text \<open>
  Modelled from the spec: the result of \<^verbatim>\<open>diff.ParseMultiFile\<close> on the text
  \<^verbatim>\<open>diffContent\<close> of \<^verbatim>\<open>filter_test.go\<close> (the parser is not among the sources). The
  spec (8): \<^verbatim>\<open>sample\<close> has a context, a deletion, two additions and a context line;
  \<^verbatim>\<open>nonewline\<close> has two context lines, two deletions and two additions; the markers of
  a missing final newline are no lines of the hunk.
\<close>

definition diffContent :: "FileDiff list" where
  \<open>diffContent =
     [\<lparr>PathOld = ''sample.old.txt'', PathNew = ''sample.new.txt'',
       Hunks = [\<lparr>oldRange = (1, 3), newRange = (1, 4),
                 lines = [\<lparr>tag = Context, content = ''unchanged, contextual line''\<rparr>,
                          \<lparr>tag = Deletion, content = ''deleted line''\<rparr>,
                          \<lparr>tag = Addition, content = ''added line''\<rparr>,
                          \<lparr>tag = Addition, content = ''added line''\<rparr>,
                          \<lparr>tag = Context, content = ''unchanged, contextual line''\<rparr>]\<rparr>]\<rparr>,
      \<lparr>PathOld = ''nonewline.old.txt'', PathNew = ''nonewline.new.txt'',
       Hunks = [\<lparr>oldRange = (1, 4), newRange = (1, 4),
                 lines = [\<lparr>tag = Context, content = ''" vim: nofixeol noendofline''\<rparr>,
                          \<lparr>tag = Context,
                           content = ''No newline at end of both the old and new file''\<rparr>,
                          \<lparr>tag = Deletion, content = ''a''\<rparr>,
                          \<lparr>tag = Deletion, content = ''a''\<rparr>,
                          \<lparr>tag = Addition, content = ''b''\<rparr>,
                          \<lparr>tag = Addition, content = ''b''\<rparr>]\<rparr>]\<rparr>]\<close>

section \<open>The check of the doghouse server\<close>

text \<open>
  \<^verbatim>\<open>doghouse_test.go\<close> tests \<^verbatim>\<open>Checker.Check\<close>, which is not among the sources; the
  test shows the request, the two calls of the client and the fields of the annotations.
  \<^verbatim>\<open>Check\<close> is modelled from the spec (section 4.4).
\<close>

record Annotation =
  an_Path :: string
  an_Line :: int
  an_Message :: string
  an_RawMessage :: string

record CheckRequest =
  Name :: string
  Owner :: string
  Repo :: string
  PullRequest :: int
  SHA :: string
  Annotations :: "Annotation list"
  Level :: string

record CheckRunAnnotation =
  cra_Path :: "string option"
  cra_StartLine :: "int option"
  cra_EndLine :: "int option"
  cra_AnnotationLevel :: "string option"
  cra_Message :: "string option"
  cra_Title :: "string option"
  cra_RawDetails :: "string option"

record CreateCheckRunOptions =
  opt_Name :: string
  opt_HeadSHA :: string
  opt_Conclusion :: "string option"
  opt_Annotations :: "CheckRunAnnotation list"

record CheckRun =
  HTMLURL :: "string option"

definition GetHTMLURL :: "CheckRun \<Rightarrow> string" where
  "GetHTMLURL c = (case HTMLURL c of None \<Rightarrow> [] | Some u \<Rightarrow> u)"

text \<open>
  The two calls of \<^verbatim>\<open>checkerGitHubClientInterface\<close> that the test's fake implements;
  each is made at most once in a check.
\<close>

record checkerGitHubClient =
  GetPullRequestDiff :: "string \<Rightarrow> string \<Rightarrow> int \<Rightarrow> error + string"
  CreateCheckRun :: "string \<Rightarrow> string \<Rightarrow> CreateCheckRunOptions \<Rightarrow> error + CheckRun"

record Checker =
  req :: CheckRequest
  gh :: checkerGitHubClient

text \<open>
  The response: the slice \<^verbatim>\<open>CheckedResults\<close> is \<open>None\<close> when it is \<^verbatim>\<open>nil\<close>, the
  report URL is empty when there is none.
\<close>

record CheckResponse =
  ReportURL :: string
  CheckedResults :: "FilteredCheck list option"

text \<open>
  Modelled from the spec: which errors are 403-class is decided inside \<^verbatim>\<open>Check\<close>,
  not among the sources. The spec (4.4, 7): a permission or rate-limit rejection, HTTP
  403. The status of an error is its response's code; the two rate-limit rejections of
  go-github are made from responses with status 403.
\<close>

definition http_status :: "error \<Rightarrow> int option" where
  "http_status e =
     (case e of
        ErrorResponse code \<Rightarrow> Some code
      | RateLimitError \<Rightarrow> Some 403
      | AbuseRateLimitError \<Rightarrow> Some 403
      | errorString m \<Rightarrow> None)"

text \<open>
  Modelled from the spec: the test for a 403-class error inside \<^verbatim>\<open>Check\<close> is not among
  the sources. The spec (4.4, step 6): the rejection has HTTP status 403.
\<close>

definition forbidden :: "error \<Rightarrow> bool" where
  "forbidden e = (http_status e = Some 403)"

text \<open>Decimal digits of a number, as \<^verbatim>\<open>%d\<close> prints them.\<close>

fun show_nat :: "nat \<Rightarrow> string" where
  "show_nat n =
     (if n < 10 then [''0123456789'' ! n]
      else show_nat (n div 10) @ [''0123456789'' ! (n mod 10)])"

declare show_nat.simps [simp del]

definition show_int :: "int \<Rightarrow> string" where
  "show_int i = (if i < 0 then CHR ''-'' # show_nat (nat (- i)) else show_nat (nat i))"

text \<open>
  Modelled from the spec: the annotation \<^verbatim>\<open>Check\<close> builds for a finding is not among
  the sources. The spec (4.4, step 3): the title is made of the tool name, the path and
  the line, the level is the request's, the details are the raw message; the test
  \<^verbatim>\<open>TestCheck_OK\<close> shows the fields and the title's form.
\<close>

definition toCheckRunAnnotation :: "CheckRequest \<Rightarrow> Annotation \<Rightarrow> CheckRunAnnotation" where
  "toCheckRunAnnotation rq a =
     \<lparr>cra_Path = Some (an_Path a),
      cra_StartLine = Some (an_Line a),
      cra_EndLine = Some (an_Line a),
      cra_AnnotationLevel = Some (Level rq),
      cra_Message = Some (an_Message a),
      cra_Title = Some (''['' @ Name rq @ ''] '' @ an_Path a @ ''#L'' @ show_int (an_Line a)),
      cra_RawDetails = Some (an_RawMessage a)\<rparr>"

text \<open>
  Modelled from the spec: the filtering step of \<^verbatim>\<open>Check\<close> is not among the sources.
  The spec (4.4, step 2; 6; 8): the annotations become findings and are filtered against
  the parsed diff with the default policy (\<^verbatim>\<open>added\<close>), strip depth 1, no enclosing
  directory.
\<close>

definition checkedResults :: "CheckRequest \<Rightarrow> FileDiff list \<Rightarrow> FilteredCheck list" where
  "checkedResults rq fds =
     FilterCheck (map (\<lambda>a. \<lparr>Path = an_Path a, Lnum = an_Line a\<rparr>) (Annotations rq))
       fds 1 [] ModeAdded"

text \<open>
  Modelled from the spec: the options of the check run that \<^verbatim>\<open>Check\<close> submits are
  not among the sources. The spec (4.4, steps 3 to 5): one annotation for each in-diff
  finding and a conclusion computed from them; the spec leaves the table of conclusions
  open, so it is the parameter \<open>conclude\<close>.
\<close>

definition checkRunOptions ::
  "(string \<Rightarrow> CheckRunAnnotation list \<Rightarrow> string) \<Rightarrow> CheckRequest \<Rightarrow> FileDiff list
     \<Rightarrow> CreateCheckRunOptions" where
  "checkRunOptions conclude rq fds =
     (let inDiff = map fst (filter (\<lambda>(a, f). InDiff f)
                     (zip (Annotations rq) (checkedResults rq fds)));
          annotations = map (toCheckRunAnnotation rq) inDiff
      in \<lparr>opt_Name = Name rq, opt_HeadSHA = SHA rq,
          opt_Conclusion = Some (conclude (Level rq) annotations),
          opt_Annotations = annotations\<rparr>)"

text \<open>
  Modelled from the spec: \<^verbatim>\<open>Checker.Check\<close> is not among the sources. The spec (4.4,
  7): fetch the diff, a failure is a terminal error; a diff text that cannot be read is
  an input error, reported to the caller at once; filter; submit one check run; when
  that fails with a 403-class rejection return the locally computed results with no
  report URL and no error; any other failure of the submission is a terminal error.
  The parser is the parameter \<open>parse\<close>: it gives the parsed diff or an error, as the
  two results of \<^verbatim>\<open>diff.ParseMultiFile\<close> in \<^verbatim>\<open>filter_test.go\<close> show, and
  \<^verbatim>\<open>TestCheck_fail_invalid_diff\<close> wants \<^verbatim>\<open>Check\<close> to fail when it gives an error.
\<close>

definition Check ::
  "(string \<Rightarrow> error + FileDiff list) \<Rightarrow> (string \<Rightarrow> CheckRunAnnotation list \<Rightarrow> string)
     \<Rightarrow> Checker \<Rightarrow> error + CheckResponse" where
  "Check parse conclude ch =
     (case GetPullRequestDiff (gh ch) (Owner (req ch)) (Repo (req ch)) (PullRequest (req ch)) of
        Inl err \<Rightarrow> Inl err
      | Inr raw \<Rightarrow>
          (case parse raw of
             Inl err \<Rightarrow> Inl err
           | Inr fds \<Rightarrow>
               (let filtered = checkedResults (req ch) fds in
                case CreateCheckRun (gh ch) (Owner (req ch)) (Repo (req ch))
                       (checkRunOptions conclude (req ch) fds) of
                  Inl err \<Rightarrow>
                    if forbidden err
                    then Inr \<lparr>ReportURL = [], CheckedResults = Some filtered\<rparr>
                    else Inl err
                | Inr run \<Rightarrow>
                    Inr \<lparr>ReportURL = GetHTMLURL run, CheckedResults = Some filtered\<rparr>)))"

section \<open>Notions for the statements and concrete inputs\<close>

text \<open>The review request the service builds for a batch of draft comments.\<close>

definition review_of :: "'w GitHubPullRequest \<Rightarrow> DraftReviewComment list \<Rightarrow> PullRequestReviewRequest" where
  "review_of g batch = \<lparr>CommitID = Some (sha g), Event = Some ''COMMENT'', Comments = batch\<rparr>"

text \<open>The draft comment the service builds for a buffered comment.\<close>

definition draft_of :: "('a Comment_scheme \<Rightarrow> string) \<Rightarrow> 'a Comment_scheme \<Rightarrow> DraftReviewComment" where
  "draft_of cb c =
     \<lparr>drc_Path = Some (Path c), drc_Position = Some (LnumDiff c), drc_Body = Some (cb c)\<rparr>"

text \<open>
  The deduplicated buffered sequence: the drafts of the buffered comments that the
  index does not hold, in the order of the buffer.
\<close>

definition new_comments ::
  "('a Comment_scheme \<Rightarrow> string) \<Rightarrow> PostedComments \<Rightarrow> 'a store \<Rightarrow> addr list
     \<Rightarrow> DraftReviewComment list" where
  "new_comments cb p st cs =
     map (\<lambda>c. draft_of cb (st c)) (filter (\<lambda>c. \<not> IsPosted cb p (st c) (LnumDiff (st c))) cs)"

text \<open>The remote comment that a submitted draft becomes.\<close>

definition created_comment :: "DraftReviewComment \<Rightarrow> PullRequestComment" where
  "created_comment d =
     \<lparr>prc_Path = drc_Path d, prc_Position = drc_Position d, prc_Body = drc_Body d\<rparr>"

text \<open>
  A remote with all its comments on one page, which accepts every review and then holds
  its comments.
\<close>

definition fakeGitHub :: "PullRequestComment list Client" where
  "fakeGitHub =
     \<lparr>ListComments = (\<lambda>w ow re n opts. (Inr (w, \<lparr>NextPage = 0\<rparr>), w)),
      CreateReview = (\<lambda>w ow re n rq. (None, w @ map created_comment (Comments rq)))\<rparr>"

text \<open>A remote without comments that rejects every review as abuse and counts the calls.\<close>

definition abuseGitHub :: "nat Client" where
  "abuseGitHub =
     \<lparr>ListComments = (\<lambda>w ow re n opts. (Inr ([], \<lparr>NextPage = 0\<rparr>), w)),
      CreateReview = (\<lambda>w ow re n rq. (Some AbuseRateLimitError, Suc w))\<rparr>"

definition example_CommentBody :: "Comment \<Rightarrow> string" where
  "example_CommentBody c = ''**['' @ ToolName c @ '']** finding''"

definition example_store :: "unit store" where
  "example_store a = \<lparr>Path = ''main.go'', Lnum = int a, LnumDiff = int a, ToolName = ''golint''\<rparr>"

definition example_service :: "'w Client \<Rightarrow> string \<Rightarrow> addr list \<Rightarrow> 'w GitHubPullRequest" where
  "example_service c dir buf =
     \<lparr>cli = c, owner = ''haya14busa'', repo = ''reviewdog'', pr = 14, sha = ''1414'',
      postComments = buf, postedcs = {}, wd = dir\<rparr>"

text \<open>
  A parser for the examples: it reads the text of the tests' sample diff, which the
  clients below return under the name \<^verbatim>\<open>sampleDiff\<close>, and refuses every other text.
\<close>

definition sampleParser :: "string \<Rightarrow> error + FileDiff list" where
  "sampleParser raw =
     (if raw = ''sampleDiff'' then Inr diffContent else Inl (errorString ''invalid diff''))"

text \<open>The client of \<^verbatim>\<open>TestCheck_fail_check_with_403\<close> and its empty request.\<close>

definition emptyRequest :: CheckRequest where
  "emptyRequest =
     \<lparr>Name = [], Owner = [], Repo = [], PullRequest = 0, SHA = [], Annotations = [], Level = []\<rparr>"

definition forbiddenClient :: checkerGitHubClient where
  "forbiddenClient =
     \<lparr>GetPullRequestDiff = (\<lambda>ow re n. Inr ''sampleDiff''),
      CreateCheckRun = (\<lambda>ow re opt. Inl (ErrorResponse 403))\<rparr>"




text \<open>
  The service and the store after one \<^verbatim>\<open>Post\<close> of the comment at address 0, from an
  empty buffer in the working directory \<^verbatim>\<open>sub\<close>.
\<close>

definition twice_service :: "PullRequestComment list GitHubPullRequest" where
  "twice_service = fst (snd (Post (example_service fakeGitHub ''sub'' []) example_store 0))"

definition twice_store :: "unit store" where
  "twice_store = snd (snd (Post (example_service fakeGitHub ''sub'' []) example_store 0))"

section \<open>Lemmas about the service\<close>

lemma setPostedComment_loop_iff:
  "(path, n, body) \<in> setPostedComment_loop cs p \<longleftrightarrow>
     (path, n, body) \<in> p \<or>
     (\<exists>c. c \<in> set cs \<and> prc_Path c = Some path \<and> prc_Position c = Some n \<and> prc_Body c = Some body)"
proof (induction cs arbitrary: p)
  case Nil
  show ?case by simp
next
  case (Cons c cs)
  let ?hit = "\<lambda>c. prc_Path c = Some path \<and> prc_Position c = Some n \<and> prc_Body c = Some body"
  show ?case
  proof (cases "prc_Position c = None \<or> prc_Path c = None \<or> prc_Body c = None")
    case True
    then have "\<not> ?hit c" by auto
    moreover from True have "setPostedComment_loop (c # cs) p = setPostedComment_loop cs p"
      by simp
    ultimately show ?thesis
      using Cons.IH [of p] by auto
  next
    case False
    then obtain path' n' body' where f: "prc_Path c = Some path'" "prc_Position c = Some n'"
      "prc_Body c = Some body'" by auto
    then have "setPostedComment_loop (c # cs) p = setPostedComment_loop cs (insert (path', n', body') p)"
      by (simp add: AddPostedComment_def GetPath_def GetPosition_def GetBody_def)
    moreover have "?hit c \<longleftrightarrow> (path, n, body) = (path', n', body')"
      using f by auto
    ultimately show ?thesis
      using Cons.IH [of "insert (path', n', body') p"] by auto
  qed
qed

lemma comment_postedcs [simp]: "comment (g\<lparr>postedcs := p\<rparr>) w = comment g w"
  by (simp add: comment_def)

lemma loop_foldl:
  "foldl (postAsReviewComment_step cb p st) (comments, remaining) cs =
     (comments @ new_comments cb p st cs, remaining)"
  by (induction cs arbitrary: comments)
     (simp_all add: postAsReviewComment_step_def new_comments_def draft_of_def)

lemma postAsReviewComment_loop_eq:
  "postAsReviewComment_loop cb p st cs = (new_comments cb p st cs, [])"
  by (simp add: postAsReviewComment_loop_def loop_foldl)

lemma take_min_go: "take (min_go maxCommentsPerRequest (length xs)) xs = take maxCommentsPerRequest xs"
  by (simp add: min_go_def)

lemma postGitHubComments_nil: "postGitHubComments g [] cnt w = (None, w, [])"
  by (subst postGitHubComments.simps) simp

lemma postGitHubComments_fail:
  assumes "comments \<noteq> []"
    and "CreateReview (cli g) w (owner g) (repo g) (pr g)
           (review_of g (take maxCommentsPerRequest comments)) = (Some e, w1)"
  shows "postGitHubComments g comments cnt w =
           (Some e, w1, [EvCreateReview (review_of g (take maxCommentsPerRequest comments))])"
  using assms by (subst postGitHubComments.simps) (simp add: take_min_go review_of_def)

lemma postGitHubComments_last:
  assumes "comments \<noteq> []" and "length comments \<le> maxCommentsPerRequest"
    and "CreateReview (cli g) w (owner g) (repo g) (pr g)
           (review_of g (take maxCommentsPerRequest comments)) = (None, w1)"
  shows "postGitHubComments g comments cnt w =
           (None, w1, [EvCreateReview (review_of g (take maxCommentsPerRequest comments))])"
  using assms by (subst postGitHubComments.simps) (simp add: take_min_go review_of_def)

lemma postGitHubComments_more:
  assumes "length comments > maxCommentsPerRequest"
    and "CreateReview (cli g) w (owner g) (repo g) (pr g)
           (review_of g (take maxCommentsPerRequest comments)) = (None, w1)"
    and "postGitHubComments g (drop maxCommentsPerRequest comments) (Suc cnt) w1 = (r, w2, evs)"
  shows "postGitHubComments g comments cnt w =
           (r, w2, EvCreateReview (review_of g (take maxCommentsPerRequest comments))
                   # EvSleep (2 ^ Suc cnt) # evs)"
proof -
  from assms(1) have "length comments \<noteq> 0" "comments \<noteq> []" by auto
  with assms show ?thesis
    by (subst postGitHubComments.simps) (simp add: take_min_go review_of_def del: power_Suc)
qed

lemma postGitHubComments_batches:
  "postGitHubComments g comments cnt w = (r, w', evs) \<Longrightarrow>
     (\<forall>b \<in> set (reviews_of evs). length b \<le> maxCommentsPerRequest) \<and>
     (\<exists>rest. comments = concat (reviews_of evs) @ rest \<and> (r = None \<longrightarrow> rest = []))"
proof (induction comments arbitrary: cnt w r w' evs rule: length_induct)
  case (1 comments)
  let ?rq = "review_of g (take maxCommentsPerRequest comments)"
  show ?case
  proof (cases "comments = []")
    case True
    with "1.prems" show ?thesis by (simp add: postGitHubComments_nil)
  next
    case False
    obtain err w1 where cr: "CreateReview (cli g) w (owner g) (repo g) (pr g) ?rq = (err, w1)"
      by (cases "CreateReview (cli g) w (owner g) (repo g) (pr g) ?rq")
    show ?thesis
    proof (cases err)
      case (Some e)
      with "1.prems" postGitHubComments_fail [OF False, of g w e w1 cnt] cr
      have "evs = [EvCreateReview ?rq]" "r = Some e" by simp_all
      then show ?thesis
        by (simp add: review_of_def) (metis append_take_drop_id)
    next
      case None
      show ?thesis
      proof (cases "length comments > maxCommentsPerRequest")
        case False
        with "1.prems" postGitHubComments_last [OF \<open>comments \<noteq> []\<close>, of g w w1 cnt] cr None
        have "evs = [EvCreateReview ?rq]" "r = None" by simp_all
        with False show ?thesis by (simp add: review_of_def)
      next
        case True
        obtain r2 w2 evs2 where rec:
          "postGitHubComments g (drop maxCommentsPerRequest comments) (Suc cnt) w1 = (r2, w2, evs2)"
          by (cases "postGitHubComments g (drop maxCommentsPerRequest comments) (Suc cnt) w1")
        from "1.prems" postGitHubComments_more [OF True _ rec] cr None
        have e: "evs = EvCreateReview ?rq # EvSleep (2 ^ Suc cnt) # evs2" "r = r2" by simp_all
        have shorter: "length (drop maxCommentsPerRequest comments) < length comments"
          using True by (simp add: maxCommentsPerRequest_def)
        from "1.IH" shorter rec
        have ih: "\<forall>b \<in> set (reviews_of evs2). length b \<le> maxCommentsPerRequest"
          "\<exists>rest. drop maxCommentsPerRequest comments = concat (reviews_of evs2) @ rest \<and> (r2 = None \<longrightarrow> rest = [])"
          by blast+
        then obtain rest where rest: "drop maxCommentsPerRequest comments = concat (reviews_of evs2) @ rest"
          "r2 = None \<longrightarrow> rest = []" by blast
        have "comments = take maxCommentsPerRequest comments @ concat (reviews_of evs2) @ rest"
          using rest(1) by (metis append_take_drop_id)
        then have "\<exists>rest'. comments = concat (reviews_of evs) @ rest' \<and> (r = None \<longrightarrow> rest' = [])"
          using rest(2) e by (intro exI[of _ rest]) (simp add: review_of_def)
        moreover have "\<forall>b \<in> set (reviews_of evs). length b \<le> maxCommentsPerRequest"
          using ih(1) e by (simp add: review_of_def)
        ultimately show ?thesis by blast
      qed
    qed
  qed
qed


lemma setPostedComment_frame:
  "setPostedComment g w = Some (r, g1, w1) \<Longrightarrow> g1 = g\<lparr>postedcs := postedcs g1\<rparr>"
  by (auto simp: setPostedComment_def Let_def split: option.splits sum.splits prod.splits)

lemma setPostedComment_ok:
  "comment g w = Some (Inr cs, w1) \<Longrightarrow>
     setPostedComment g w = Some (None, g\<lparr>postedcs := setPostedComment_loop cs {}\<rparr>, w1)"
  by (simp add: setPostedComment_def Let_def)

lemma postAsReviewComment_eq:
  "postAsReviewComment cb g st w =
     postGitHubComments g (new_comments cb (postedcs g) st (postComments g)) 0 w"
  by (simp add: postAsReviewComment_def postAsReviewComment_loop_eq)

lemma comment_fakeGitHub:
  "comment (example_service fakeGitHub dir buf) w = Some (Inr w, w)"
  by (simp add: comment_def listAllPullRequestsComments.simps example_service_def fakeGitHub_def)


lemma comment_abuseGitHub:
  "comment (example_service abuseGitHub dir buf) w = Some (Inr [], w)"
  by (simp add: comment_def listAllPullRequestsComments.simps example_service_def abuseGitHub_def)

lemma setPostedComment_fields:
  assumes "setPostedComment g w = Some (r, g1, w1)"
  shows "postComments g1 = postComments g \<and> cli g1 = cli g \<and> owner g1 = owner g \<and>
         repo g1 = repo g \<and> pr g1 = pr g \<and> sha g1 = sha g \<and> wd g1 = wd g"
proof -
  from setPostedComment_frame [OF assms] obtain p where "g1 = g\<lparr>postedcs := p\<rparr>" ..
  then show ?thesis by simp
qed

lemma example_service_postedcs [simp]:
  "(example_service c dir buf)\<lparr>postedcs := {}\<rparr> = example_service c dir buf"
  by (simp add: example_service_def)

lemma setPostedComment_fakeGitHub_empty:
  "setPostedComment (example_service fakeGitHub dir buf) [] =
     Some (None, example_service fakeGitHub dir buf, [])"
  using setPostedComment_ok [OF comment_fakeGitHub, of dir buf "[]"] by simp

lemma created_in_index:
  assumes "created_comment (draft_of cb c) \<in> set cs"
  shows "IsPosted cb (setPostedComment_loop cs {}) c (LnumDiff c)"
proof -
  let ?rc = "created_comment (draft_of cb c)"
  have "prc_Path ?rc = Some (Path c)" "prc_Position ?rc = Some (LnumDiff c)"
    "prc_Body ?rc = Some (cb c)"
    by (simp_all add: created_comment_def draft_of_def)
  with assms show ?thesis
    unfolding IsPosted_def setPostedComment_loop_iff by blast
qed

lemma index_mono:
  assumes "set cs1 \<subseteq> set cs2"
  shows "setPostedComment_loop cs1 {} \<subseteq> setPostedComment_loop cs2 {}"
proof
  fix x assume x: "x \<in> setPostedComment_loop cs1 {}"
  obtain path n body where t: "x = (path, n, body)" by (cases x)
  with x have "(path, n, body) \<in> setPostedComment_loop cs1 {}" by simp
  with assms have "(path, n, body) \<in> setPostedComment_loop cs2 {}"
    unfolding setPostedComment_loop_iff by blast
  with t show "x \<in> setPostedComment_loop cs2 {}" by simp
qed

lemma new_comments_nil:
  assumes "\<forall>c \<in> set cs. IsPosted cb p (st c) (LnumDiff (st c))"
  shows "new_comments cb p st cs = []"
  using assms by (simp add: new_comments_def filter_empty_conv)

lemma Flush_fakeGitHub_first:
  "Flush example_CommentBody (example_service fakeGitHub [] [0, 1, 2]) example_store [] =
     Some (None, example_service fakeGitHub [] [0, 1, 2],
           map (\<lambda>a. created_comment (draft_of example_CommentBody (example_store a))) [0, 1, 2],
           [EvCreateReview (review_of (example_service fakeGitHub [] [0, 1, 2])
              (map (\<lambda>a. draft_of example_CommentBody (example_store a)) [0, 1, 2]))])"
proof -
  let ?g = "example_service fakeGitHub [] [0, 1, 2]"
  let ?D = "map (\<lambda>a. draft_of example_CommentBody (example_store a)) [0, 1, 2]"
  have n: "new_comments example_CommentBody (postedcs ?g) example_store (postComments ?g) = ?D"
    by (simp add: new_comments_def IsPosted_def example_service_def)
  have t: "take maxCommentsPerRequest ?D = ?D"
    by (simp add: maxCommentsPerRequest_def)
  have "postGitHubComments ?g ?D 0 [] =
          (None, map created_comment ?D, [EvCreateReview (review_of ?g (take maxCommentsPerRequest ?D))])"
    by (rule postGitHubComments_last)
       (simp_all add: maxCommentsPerRequest_def example_service_def fakeGitHub_def review_of_def)
  then have run: "postGitHubComments ?g ?D 0 [] =
          (None, map created_comment ?D, [EvCreateReview (review_of ?g ?D)])"
    by (simp only: t)
  have post: "postAsReviewComment example_CommentBody ?g example_store [] =
          (None, map created_comment ?D, [EvCreateReview (review_of ?g ?D)])"
    by (simp only: postAsReviewComment_eq n run)
  show ?thesis
    by (simp only: Flush_def setPostedComment_fakeGitHub_empty post option.case prod.case
          list.map)
qed

lemma Clean_sub_main: "filepath_Clean ''sub/main.go'' = ''sub/main.go''"
  by (simp add: filepath_Clean_def clean_step_def Let_def)

lemma Clean_sub_sub_main: "filepath_Clean ''sub/sub/main.go'' = ''sub/sub/main.go''"
  by (simp add: filepath_Clean_def clean_step_def Let_def)

lemma twice_service_eq: "twice_service = example_service fakeGitHub ''sub'' [0]"
  by (simp add: twice_service_def Post_def Let_def example_service_def)

lemma twice_store_0: "twice_store 0 = (example_store 0)\<lparr>Path := ''sub/main.go''\<rparr>"
  by (simp add: twice_store_def Post_def Let_def example_service_def example_store_def filepath_ToSlash_def Clean_sub_main)

section \<open>Lemmas about the filter and the check\<close>

lemma index_sample:
  "BuildIndex diffContent =
     [(''sample.new.txt'', [(1, 1, Context), (2, 3, Addition), (3, 4, Addition), (4, 5, Context)]),
      (''nonewline.new.txt'', [(1, 1, Context), (2, 2, Context), (3, 5, Addition), (4, 6, Addition)])]"
  by (simp add: BuildIndex_def diffContent_def)

text \<open>
  The spec's example of path normalization (section 8): \<^verbatim>\<open>foo.go\<close>, reported from the
  subdirectory \<^verbatim>\<open>sub/\<close> with strip depth 1, is matched as \<^verbatim>\<open>sub/foo.go\<close>.
\<close>

lemma normalize_path_example: "normalize_path 1 ''sub/'' ''foo.go'' = ''sub/foo.go''"
  by (simp add: normalize_path_def filepath_Clean_def clean_step_def Let_def)

lemma normalize_sample:
  "normalize_path 0 [] ''sample.new.txt'' = ''sample.new.txt''"
  "normalize_path 0 [] ''nonewline.new.txt'' = ''nonewline.new.txt''"
  by (simp_all add: normalize_path_def filepath_Clean_def clean_step_def Let_def)

lemma fc_CheckResult_filter_finding [simp]:
  "fc_CheckResult (filter_finding idx strip relDir mode r) = r"
  by (simp add: filter_finding_def Let_def split: Mode.splits option.splits prod.splits)

lemma kept_eq:
  "kept results fds strip relDir mode =
     {r \<in> set results. InDiff (filter_finding (BuildIndex fds) strip relDir mode r)}"
  by (auto simp: kept_def FilterCheck_def filter_map comp_def image_iff)

lemma added_in_context:
  "InDiff (filter_finding idx strip relDir ModeAdded r) \<Longrightarrow>
     InDiff (filter_finding idx strip relDir ModeDiffContext r)"
  by (simp add: filter_finding_def Let_def split: option.splits prod.splits if_splits)

lemma nofilter_keeps: "InDiff (filter_finding idx strip relDir ModeNoFilter r)"
  by (simp add: filter_finding_def Let_def)

lemma show_examples: "show_int 2 = ''2''" "show_int 14 = ''14''" "show_int (-305) = ''-305''"
  by (simp_all add: show_int_def show_nat.simps)

text \<open>
  The model of \<^verbatim>\<open>Check\<close> against \<^verbatim>\<open>TestCheck_OK\<close>: of the two annotations of the
  request only the one on line 2 is in the diff, and the options of the check run are
  the ones the test expects.
\<close>

lemma TestCheck_OK_options:
  "checkRunOptions (\<lambda>level annotations. ''neutral'')
     \<lparr>Name = ''haya14busa-linter'', Owner = ''haya14busa'', Repo = ''reviewdog'', PullRequest = 14,
      SHA = ''1414'',
      Annotations = [\<lparr>an_Path = ''sample.new.txt'', an_Line = 2, an_Message = ''test message'',
                      an_RawMessage = ''raw test message''\<rparr>,
                     \<lparr>an_Path = ''sample.new.txt'', an_Line = 14,
                      an_Message = ''test message outside diff'',
                      an_RawMessage = ''raw test message outside diff''\<rparr>],
      Level = ''warning''\<rparr> diffContent =
   \<lparr>opt_Name = ''haya14busa-linter'', opt_HeadSHA = ''1414'', opt_Conclusion = Some ''neutral'',
    opt_Annotations =
      [\<lparr>cra_Path = Some ''sample.new.txt'', cra_StartLine = Some 2, cra_EndLine = Some 2,
        cra_AnnotationLevel = Some ''warning'', cra_Message = Some ''test message'',
        cra_Title = Some ''[haya14busa-linter] sample.new.txt#L2'',
        cra_RawDetails = Some ''raw test message''\<rparr>]\<rparr>"
  by (simp add: checkRunOptions_def checkedResults_def FilterCheck_def filter_finding_def
        lookup_line_def index_sample normalize_path_def filepath_Clean_def clean_step_def
        toCheckRunAnnotation_def show_examples Let_def)


section \<open>The posted-comment index (C8)\<close>

text \<open>
  Claim C8. When \<^verbatim>\<open>setPostedComment\<close> builds the index from the comments the remote
  lists, a comment whose path, body or position is \<^verbatim>\<open>nil\<close> is skipped and every
  comment with all three is added under (path, position, body): the index holds exactly
  the triples of the complete comments, and it is the index the list without the
  incomplete comments gives, so an incomplete comment takes no part in deduplication.
\<close>

theorem setPostedComment_skips_incomplete:
  assumes "comment g w = Some (Inr cs, w1)"
  shows "setPostedComment g w = Some (None, g\<lparr>postedcs := setPostedComment_loop cs {}\<rparr>, w1) \<and>
         setPostedComment_loop cs {} =
           {(path, n, body). \<exists>c. c \<in> set cs \<and> prc_Path c = Some path \<and>
                                  prc_Position c = Some n \<and> prc_Body c = Some body} \<and>
         setPostedComment_loop cs {} =
           setPostedComment_loop
             (filter (\<lambda>c. prc_Position c \<noteq> None \<and> prc_Path c \<noteq> None \<and> prc_Body c \<noteq> None) cs) {}"
proof (intro conjI)
  show "setPostedComment g w = Some (None, g\<lparr>postedcs := setPostedComment_loop cs {}\<rparr>, w1)"
    using assms by (rule setPostedComment_ok)
  show "setPostedComment_loop cs {} =
           {(path, n, body). \<exists>c. c \<in> set cs \<and> prc_Path c = Some path \<and>
                                  prc_Position c = Some n \<and> prc_Body c = Some body}"
    by (auto simp: setPostedComment_loop_iff)
  show "setPostedComment_loop cs {} =
           setPostedComment_loop
             (filter (\<lambda>c. prc_Position c \<noteq> None \<and> prc_Path c \<noteq> None \<and> prc_Body c \<noteq> None) cs) {}"
    by (rule set_eqI) (fastforce simp: setPostedComment_loop_iff)
qed

text \<open>
  C8 on a remote with one complete comment and one without a position: only the first
  is in the index.
\<close>

theorem setPostedComment_skips_incomplete_witness:
  "setPostedComment (example_service fakeGitHub [] [])
     [\<lparr>prc_Path = Some ''main.go'', prc_Position = Some 3, prc_Body = Some ''finding''\<rparr>,
      \<lparr>prc_Path = Some ''main.go'', prc_Position = None, prc_Body = Some ''outdated''\<rparr>]
   = Some (None,
           (example_service fakeGitHub [] [])\<lparr>postedcs := {(''main.go'', 3, ''finding'')}\<rparr>,
           [\<lparr>prc_Path = Some ''main.go'', prc_Position = Some 3, prc_Body = Some ''finding''\<rparr>,
            \<lparr>prc_Path = Some ''main.go'', prc_Position = None, prc_Body = Some ''outdated''\<rparr>])"
  using setPostedComment_skips_incomplete [OF comment_fakeGitHub, of "[]" "[]"
    "[\<lparr>prc_Path = Some ''main.go'', prc_Position = Some 3, prc_Body = Some ''finding''\<rparr>,
      \<lparr>prc_Path = Some ''main.go'', prc_Position = None, prc_Body = Some ''outdated''\<rparr>]"]
  by (simp add: AddPostedComment_def GetPath_def GetPosition_def GetBody_def)

section \<open>The disabled overflow branch (C9)\<close>

text \<open>
  Claim C9. In \<^verbatim>\<open>postAsReviewComment\<close> the guard of the overflow branch is a
  conjunction with \<^verbatim>\<open>false\<close>: for every buffer, index and store the list
  \<^verbatim>\<open>remaining\<close> is empty at the end of the loop, the list of draft comments holds every
  buffered comment that is not a duplicate, in order and however many there are, and
  that whole list goes to \<^verbatim>\<open>postGitHubComments\<close>. (\<^verbatim>\<open>remainingCommentsSummary\<close> has
  no call in the flush; \<^verbatim>\<open>remaining\<close>, the only list it could be given, is empty.)
\<close>

theorem overflow_branch_unreachable:
  "snd (postAsReviewComment_loop cb p st cs) = [] \<and>
   fst (postAsReviewComment_loop cb p st cs) =
     map (\<lambda>c. draft_of cb (st c)) (filter (\<lambda>c. \<not> IsPosted cb p (st c) (LnumDiff (st c))) cs) \<and>
   postAsReviewComment cb g st w =
     postGitHubComments g
       (map (\<lambda>c. draft_of cb (st c))
          (filter (\<lambda>c. \<not> IsPosted cb (postedcs g) (st c) (LnumDiff (st c))) (postComments g))) 0 w"
  by (simp add: postAsReviewComment_loop_eq postAsReviewComment_eq new_comments_def)


text \<open>C9 on thirty new comments, more than one request takes: none is left over.\<close>

theorem overflow_branch_unreachable_witness:
  "snd (postAsReviewComment_loop example_CommentBody {} example_store [0..<30]) = [] \<and>
   length (fst (postAsReviewComment_loop example_CommentBody {} example_store [0..<30])) = 30"
  using overflow_branch_unreachable [of example_CommentBody "{}" example_store "[0..<30]"
    "example_service fakeGitHub [] []" "[]"]
  by (simp add: IsPosted_def)


section \<open>A rejected submission (C4)\<close>

text \<open>
  Claim C4 says that a submission rejected for abuse or rate limiting is retried with
  exponential backoff and not surfaced. \<^verbatim>\<open>postGitHubComments\<close> returns every error of
  \<^verbatim>\<open>CreateReview\<close> as it is; the sleep of \<open>2 ^ cnt\<close> seconds only separates an accepted
  review from the next batch. On a remote that rejects every review as abuse, a flush
  of one comment makes one call, sleeps never and returns the rejection:
\<close>

theorem abuse_rejection_not_retried:
  "Flush example_CommentBody (example_service abuseGitHub [] [0]) example_store 0 =
     Some (Some AbuseRateLimitError, example_service abuseGitHub [] [0], 1,
           [EvCreateReview (review_of (example_service abuseGitHub [] [0])
                              [draft_of example_CommentBody (example_store 0)])])"
proof -
  let ?g = "example_service abuseGitHub [] [0]"
  have s: "setPostedComment ?g 0 = Some (None, ?g, 0)"
    using setPostedComment_ok [OF comment_abuseGitHub, of "[]" "[0]" 0]
    by (simp add: example_service_def)
  have n: "new_comments example_CommentBody (postedcs ?g) example_store (postComments ?g) =
             [draft_of example_CommentBody (example_store 0)]"
    by (simp add: new_comments_def IsPosted_def example_service_def)
  have p: "postGitHubComments ?g [draft_of example_CommentBody (example_store 0)] 0 0 =
             (Some AbuseRateLimitError, 1,
              [EvCreateReview (review_of ?g [draft_of example_CommentBody (example_store 0)])])"
    using postGitHubComments_fail [of "[draft_of example_CommentBody (example_store 0)]"
        ?g 0 AbuseRateLimitError 1 0]
    by (simp add: example_service_def abuseGitHub_def maxCommentsPerRequest_def)
  show ?thesis
    by (simp add: Flush_def s postAsReviewComment_eq n p)
qed

text \<open>
  Claim C4, amended. When a call of \<^verbatim>\<open>CreateReview\<close> fails with any error, an abuse or
  rate-limit rejection included, \<^verbatim>\<open>postGitHubComments\<close> returns that error at once:
  the failed call is its only event, with no sleep, no retry and no further batch.
\<close>

theorem submission_error_surfaced:
  assumes "comments \<noteq> []"
    and "CreateReview (cli g) w (owner g) (repo g) (pr g)
           (review_of g (take maxCommentsPerRequest comments)) = (Some e, w1)"
  shows "postGitHubComments g comments cnt w =
           (Some e, w1, [EvCreateReview (review_of g (take maxCommentsPerRequest comments))])"
  using assms by (rule postGitHubComments_fail)


text \<open>C4, amended, on the remote that rejects every review as abuse.\<close>

theorem submission_error_surfaced_witness:
  "postGitHubComments (example_service abuseGitHub [] [0])
     [draft_of example_CommentBody (example_store 0)] 0 0 =
   (Some AbuseRateLimitError, 1,
    [EvCreateReview (review_of (example_service abuseGitHub [] [0])
                       [draft_of example_CommentBody (example_store 0)])])"
  using submission_error_surfaced [of "[draft_of example_CommentBody (example_store 0)]"
      "example_service abuseGitHub [] [0]" 0 AbuseRateLimitError 1 0]
  by (simp add: example_service_def abuseGitHub_def maxCommentsPerRequest_def)

section \<open>Batches of at most 25 comments (C3)\<close>

text \<open>
  Claim C3. Once the index is rebuilt, \<^verbatim>\<open>Flush\<close> returns, and of the reviews it sent
  each carries at most \<^verbatim>\<open>maxCommentsPerRequest\<close> comments; their concatenation, in
  order, is a prefix of the deduplicated buffered sequence, and the whole of it when
  \<^verbatim>\<open>Flush\<close> returns \<^verbatim>\<open>nil\<close>. With 40 new
  comments, and the first review accepted, the events are exactly a review of the first
  25 comments, a sleep of 2 seconds (\<open>2 ^ cnt\<close> with \<open>cnt = 1\<close>) and a review of the
  other 15.
\<close>

theorem Flush_batches:
  fixes cb :: "'a Comment_scheme \<Rightarrow> string" and st :: "'a store"
  assumes "setPostedComment g w = Some (None, g1, w1)"
  defines "new \<equiv> new_comments cb (postedcs g1) st (postComments g1)"
  shows "\<exists>r w2 evs.
           Flush cb g st w = Some (r, g1, w2, evs) \<and>
           postComments g1 = postComments g \<and>
           (\<forall>b \<in> set (reviews_of evs). length b \<le> maxCommentsPerRequest) \<and>
           (\<exists>rest. new = concat (reviews_of evs) @ rest) \<and>
           (r = None \<longrightarrow> concat (reviews_of evs) = new) \<and>
           (length new = 40 \<and>
            fst (CreateReview (cli g1) w1 (owner g1) (repo g1) (pr g1) (review_of g1 (take 25 new))) = None
              \<longrightarrow> evs = [EvCreateReview (review_of g1 (take 25 new)), EvSleep 2,
                        EvCreateReview (review_of g1 (drop 25 new))] \<and>
                  length (take 25 new) = 25 \<and> length (drop 25 new) = 15)"
proof -
  obtain r w2 evs where run: "postGitHubComments g1 new 0 w1 = (r, w2, evs)"
    by (cases "postGitHubComments g1 new 0 w1")
  have fl: "Flush cb g st w = Some (r, g1, w2, evs)"
    using assms(1) run by (simp add: Flush_def postAsReviewComment_eq new_def)
  have pc: "postComments g1 = postComments g"
    using setPostedComment_fields [OF assms(1)] by simp
  from postGitHubComments_batches [OF run]
  have b: "\<forall>b \<in> set (reviews_of evs). length b \<le> maxCommentsPerRequest"
    and c: "r = None \<longrightarrow> concat (reviews_of evs) = new"
    and pre: "\<exists>rest. new = concat (reviews_of evs) @ rest"
    by auto
  have forty: "evs = [EvCreateReview (review_of g1 (take 25 new)), EvSleep 2,
                        EvCreateReview (review_of g1 (drop 25 new))] \<and>
                  length (take 25 new) = 25 \<and> length (drop 25 new) = 15"
    if len: "length new = 40"
      and acc: "fst (CreateReview (cli g1) w1 (owner g1) (repo g1) (pr g1) (review_of g1 (take 25 new))) = None"
  proof -
    have m: "maxCommentsPerRequest = 25" by (simp add: maxCommentsPerRequest_def)
    obtain w1' where cr1: "CreateReview (cli g1) w1 (owner g1) (repo g1) (pr g1)
                             (review_of g1 (take maxCommentsPerRequest new)) = (None, w1')"
      using acc unfolding m by (metis prod.collapse)
    let ?rest = "drop maxCommentsPerRequest new"
    have rest_len: "length ?rest = 15" "?rest \<noteq> []" "length ?rest \<le> maxCommentsPerRequest"
      using len by (auto simp: m)
    have tk: "take maxCommentsPerRequest ?rest = ?rest"
      using rest_len(3) by simp
    obtain err2 w2' where cr2: "CreateReview (cli g1) w1' (owner g1) (repo g1) (pr g1)
                             (review_of g1 (take maxCommentsPerRequest ?rest)) = (err2, w2')"
      by (metis prod.collapse)
    have "\<exists>r' w'. postGitHubComments g1 ?rest (Suc 0) w1' =
            (r', w', [EvCreateReview (review_of g1 ?rest)])"
    proof (cases err2)
      case None
      with postGitHubComments_last [OF rest_len(2) rest_len(3), of g1 w1' w2' "Suc 0"] cr2
      show ?thesis by (simp add: tk)
    next
      case (Some e)
      with postGitHubComments_fail [OF rest_len(2), of g1 w1' e w2' "Suc 0"] cr2
      show ?thesis by (simp add: tk)
    qed
    then obtain r' w' where rec: "postGitHubComments g1 ?rest (Suc 0) w1' =
            (r', w', [EvCreateReview (review_of g1 ?rest)])" by blast
    have "length new > maxCommentsPerRequest" using len by (simp add: m)
    from postGitHubComments_more [OF this cr1 rec] run
    have "evs = [EvCreateReview (review_of g1 (take maxCommentsPerRequest new)), EvSleep (2 ^ Suc 0),
                 EvCreateReview (review_of g1 ?rest)]"
      by simp
    then show ?thesis using len by (simp add: m)
  qed
  have "Flush cb g st w = Some (r, g1, w2, evs) \<and>
           postComments g1 = postComments g \<and>
           (\<forall>b \<in> set (reviews_of evs). length b \<le> maxCommentsPerRequest) \<and>
           (\<exists>rest. new = concat (reviews_of evs) @ rest) \<and>
           (r = None \<longrightarrow> concat (reviews_of evs) = new) \<and>
           (length new = 40 \<and>
            fst (CreateReview (cli g1) w1 (owner g1) (repo g1) (pr g1) (review_of g1 (take 25 new))) = None
              \<longrightarrow> evs = [EvCreateReview (review_of g1 (take 25 new)), EvSleep 2,
                        EvCreateReview (review_of g1 (drop 25 new))] \<and>
                  length (take 25 new) = 25 \<and> length (drop 25 new) = 15)"
    using fl pc b c pre forty by simp
  then show ?thesis by (intro exI)
qed


text \<open>C3 on a buffer of forty comments and a remote without comments.\<close>

theorem Flush_batches_witness:
  "\<exists>r w2 b1 b2.
     Flush example_CommentBody (example_service fakeGitHub [] [0..<40]) example_store [] =
       Some (r, example_service fakeGitHub [] [0..<40], w2,
             [EvCreateReview b1, EvSleep 2, EvCreateReview b2]) \<and>
     length (Comments b1) = 25 \<and> length (Comments b2) = 15"
proof -
  let ?g = "example_service fakeGitHub [] [0..<40]"
  let ?new = "new_comments example_CommentBody (postedcs ?g) example_store (postComments ?g)"
  have len: "length ?new = 40"
    by (simp add: new_comments_def IsPosted_def example_service_def)
  have acc: "fst (CreateReview (cli ?g) [] (owner ?g) (repo ?g) (pr ?g)
                    (review_of ?g (take 25 ?new))) = None"
    by (simp add: example_service_def fakeGitHub_def)
  from Flush_batches [OF setPostedComment_fakeGitHub_empty, of example_CommentBody "[]" "[0..<40]" example_store]
    len acc
  obtain r w2 where "Flush example_CommentBody ?g example_store [] =
       Some (r, ?g, w2, [EvCreateReview (review_of ?g (take 25 ?new)), EvSleep 2,
                        EvCreateReview (review_of ?g (drop 25 ?new))])"
    and "length (take 25 ?new) = 25" and "length (drop 25 ?new) = 15"
    by auto
  then show ?thesis
    by (intro exI [of _ r] exI [of _ w2] exI [of _ "review_of ?g (take 25 ?new)"]
          exI [of _ "review_of ?g (drop 25 ?new)"]) (simp add: review_of_def)
qed

section \<open>Flushing twice (C2)\<close>

text \<open>
  Claim C2. Let a first \<^verbatim>\<open>Flush\<close> return \<^verbatim>\<open>nil\<close>, and let the remote, when \<^verbatim>\<open>Flush\<close>
  is called again with no \<^verbatim>\<open>Post\<close> in between, list every comment it listed for the
  first one and every comment the first one created. Then the buffer is the same, the
  rebuilt index marks every buffered comment as posted, the submission list is empty,
  and the second \<^verbatim>\<open>Flush\<close> returns \<^verbatim>\<open>nil\<close> with no event: no call of
  \<^verbatim>\<open>CreateReview\<close>.
\<close>

theorem Flush_twice_no_new_review:
  fixes cb :: "'a Comment_scheme \<Rightarrow> string" and st :: "'a store"
  assumes first: "Flush cb g st w0 = Some (None, g1, w1, evs1)"
    and listed1: "comment g w0 = Some (Inr cs1, w0')"
    and listed2: "comment g1 w2 = Some (Inr cs2, w3)"
    and fixed: "set cs1 \<subseteq> set cs2"
    and created: "\<forall>d \<in> set (concat (reviews_of evs1)). created_comment d \<in> set cs2"
  shows "Flush cb g1 st w2 = Some (None, g1\<lparr>postedcs := setPostedComment_loop cs2 {}\<rparr>, w3, []) \<and>
         postComments g1 = postComments g \<and>
         (\<forall>c \<in> set (postComments g1).
            IsPosted cb (setPostedComment_loop cs2 {}) (st c) (LnumDiff (st c))) \<and>
         fst (postAsReviewComment_loop cb (setPostedComment_loop cs2 {}) st (postComments g1)) = []"
proof -
  let ?p1 = "setPostedComment_loop cs1 {}" and ?p2 = "setPostedComment_loop cs2 {}"
  have s1: "setPostedComment g w0 = Some (None, g\<lparr>postedcs := ?p1\<rparr>, w0')"
    using listed1 by (rule setPostedComment_ok)
  with first have g1: "g1 = g\<lparr>postedcs := ?p1\<rparr>"
    and run1: "postGitHubComments g1 (new_comments cb ?p1 st (postComments g)) 0 w0' = (None, w1, evs1)"
    by (auto simp: Flush_def postAsReviewComment_eq split: prod.splits)
  from postGitHubComments_batches [OF run1]
  have sent: "concat (reviews_of evs1) = new_comments cb ?p1 st (postComments g)"
    by auto
  have pc: "postComments g1 = postComments g" by (simp add: g1)
  have posted: "IsPosted cb ?p2 (st c) (LnumDiff (st c))" if c: "c \<in> set (postComments g)" for c
  proof (cases "IsPosted cb ?p1 (st c) (LnumDiff (st c))")
    case True
    with index_mono [OF fixed] show ?thesis
      unfolding IsPosted_def by blast
  next
    case False
    with c have "draft_of cb (st c) \<in> set (new_comments cb ?p1 st (postComments g))"
      by (auto simp: new_comments_def)
    with sent created have "created_comment (draft_of cb (st c)) \<in> set cs2" by simp
    then show ?thesis by (rule created_in_index)
  qed
  then have all: "\<forall>c \<in> set (postComments g1). IsPosted cb ?p2 (st c) (LnumDiff (st c))"
    by (simp add: pc)
  then have none: "new_comments cb ?p2 st (postComments g1) = []"
    by (rule new_comments_nil)
  have s2: "setPostedComment g1 w2 = Some (None, g1\<lparr>postedcs := ?p2\<rparr>, w3)"
    using listed2 by (rule setPostedComment_ok)
  have "Flush cb g1 st w2 = Some (None, g1\<lparr>postedcs := ?p2\<rparr>, w3, [])"
    by (simp add: Flush_def s2 postAsReviewComment_eq none postGitHubComments_nil)
  with pc all none show ?thesis
    by (simp add: postAsReviewComment_loop_eq)
qed


text \<open>
  C2 on three buffered comments: the first flush creates them on the remote that had
  none, the second one sends nothing.
\<close>

theorem Flush_twice_no_new_review_witness:
  "Flush example_CommentBody (example_service fakeGitHub [] [0, 1, 2]) example_store
     (map (\<lambda>a. created_comment (draft_of example_CommentBody (example_store a))) [0, 1, 2]) =
   Some (None,
         (example_service fakeGitHub [] [0, 1, 2])
           \<lparr>postedcs := setPostedComment_loop
              (map (\<lambda>a. created_comment (draft_of example_CommentBody (example_store a))) [0, 1, 2]) {}\<rparr>,
         map (\<lambda>a. created_comment (draft_of example_CommentBody (example_store a))) [0, 1, 2],
         [])"
proof -
  let ?g = "example_service fakeGitHub [] [0, 1, 2]"
  let ?W = "map (\<lambda>a. created_comment (draft_of example_CommentBody (example_store a))) [0, 1, 2]"
  have created: "\<forall>d \<in> set (concat (reviews_of
        [EvCreateReview (review_of ?g
           (map (\<lambda>a. draft_of example_CommentBody (example_store a)) [0, 1, 2]))])).
        created_comment d \<in> set ?W"
    by (simp add: review_of_def)
  have fixed: "set ([] :: PullRequestComment list) \<subseteq> set ?W" by simp
  from Flush_twice_no_new_review [OF Flush_fakeGitHub_first comment_fakeGitHub comment_fakeGitHub
      fixed created]
  show ?thesis by simp
qed


section \<open>Post (C10)\<close>

text \<open>
  Claim C10 says that \<^verbatim>\<open>Post\<close> leaves every previously buffered comment unchanged. The
  buffer holds pointers, and \<^verbatim>\<open>Post\<close> writes into the comment it is given: when that
  comment is in the buffer already, the buffered comment changes. Posting the comment
  at address 0 twice, in the working directory \<^verbatim>\<open>sub\<close>:
\<close>

theorem Post_twice_changes_buffered:
  "postComments twice_service = [0] \<and>
   Path (twice_store 0) = ''sub/main.go'' \<and>
   Path (snd (snd (Post twice_service twice_store 0)) 0) = ''sub/sub/main.go'' \<and>
   map (snd (snd (Post twice_service twice_store 0))) (postComments twice_service)
     \<noteq> map twice_store (postComments twice_service)"
proof -
  have a: "postComments twice_service = [0]" "wd twice_service = ''sub''"
    by (simp_all add: twice_service_eq example_service_def)
  have b: "Path (twice_store 0) = ''sub/main.go''"
    by (simp add: twice_store_0)
  have c: "Path (snd (snd (Post twice_service twice_store 0)) 0) = ''sub/sub/main.go''"
    by (simp add: Post_def Let_def a b filepath_ToSlash_def Clean_sub_sub_main)
  from a b c show ?thesis by auto
qed

text \<open>
  Claim C10, amended. \<^verbatim>\<open>Post\<close> returns \<^verbatim>\<open>nil\<close>; the path of the comment it is given
  becomes the slash-separated join of the working directory and its former path, and
  no other field of it changes; no other comment of the store changes; the buffer grows
  by that one pointer at its end, the service is otherwise the same; and the comments
  buffered before are unchanged when the posted comment is not one of them.
\<close>

theorem Post_frame:
  fixes st :: "'a store"
  assumes "Post g st c = (r, g', st')"
  shows "r = None \<and>
         Path (st' c) = filepath_ToSlash (filepath_Join [wd g, Path (st c)]) \<and>
         st' c = (st c)\<lparr>Path := Path (st' c)\<rparr> \<and>
         (\<forall>a. a \<noteq> c \<longrightarrow> st' a = st a) \<and>
         g' = g\<lparr>postComments := postComments g @ [c]\<rparr> \<and>
         (c \<notin> set (postComments g) \<longrightarrow> map st' (postComments g) = map st (postComments g))"
proof -
  let ?c' = "(st c)\<lparr>Path := filepath_ToSlash (filepath_Join [wd g, Path (st c)])\<rparr>"
  from assms have r: "r = None" and g': "g' = g\<lparr>postComments := postComments g @ [c]\<rparr>"
    and st': "st' = st(c := ?c')"
    by (simp_all add: Post_def Let_def)
  have frame: "map st' (postComments g) = map st (postComments g)" if "c \<notin> set (postComments g)"
    using that by (auto simp: st')
  from r g' st' frame show ?thesis by simp
qed


text \<open>C10, amended, on a buffer that holds another comment.\<close>

theorem Post_frame_witness:
  "fst (Post (example_service fakeGitHub ''sub'' [1]) example_store 0) = None \<and>
   Path (snd (snd (Post (example_service fakeGitHub ''sub'' [1]) example_store 0)) 0) = ''sub/main.go'' \<and>
   postComments (fst (snd (Post (example_service fakeGitHub ''sub'' [1]) example_store 0))) = [1, 0] \<and>
   map (snd (snd (Post (example_service fakeGitHub ''sub'' [1]) example_store 0))) [1] = map example_store [1]"
  using Post_frame [of "example_service fakeGitHub ''sub'' [1]" example_store 0
      "fst (Post (example_service fakeGitHub ''sub'' [1]) example_store 0)"
      "fst (snd (Post (example_service fakeGitHub ''sub'' [1]) example_store 0))"
      "snd (snd (Post (example_service fakeGitHub ''sub'' [1]) example_store 0))"]
  by (simp add: example_service_def example_store_def filepath_ToSlash_def Clean_sub_main)


section \<open>The sample diff (C1)\<close>

text \<open>
  Claim C1. On the two-file sample diff, line 2 of \<^verbatim>\<open>sample.new.txt\<close> is at diff
  position 3 and line 3 of \<^verbatim>\<open>nonewline.new.txt\<close> at position 5, both on addition
  lines; line 1 of either file is on a context line, at position 1. So the mode
  \<^verbatim>\<open>added\<close> gives the four findings of \<^verbatim>\<open>TestFilterCheckByAddedLines\<close> the values
  the test expects (in-diff with positions 3 and 5 for the two on additions, not in-diff
  for the two on line 1), and the mode \<^verbatim>\<open>diff_context\<close> keeps lines 1, 2 and 3 of
  \<^verbatim>\<open>sample.new.txt\<close> at positions 1, 3 and 4, as \<^verbatim>\<open>TestFilterCheckByDiffContext\<close>
  expects, and line 1 of \<^verbatim>\<open>nonewline.new.txt\<close> at position 1.
\<close>

theorem sample_diff_positions:
  "lookup_line (BuildIndex diffContent) ''sample.new.txt'' 2 = Some (3, Addition) \<and>
   lookup_line (BuildIndex diffContent) ''nonewline.new.txt'' 3 = Some (5, Addition) \<and>
   lookup_line (BuildIndex diffContent) ''sample.new.txt'' 1 = Some (1, Context) \<and>
   lookup_line (BuildIndex diffContent) ''nonewline.new.txt'' 1 = Some (1, Context) \<and>
   FilterCheck
     [\<lparr>Path = ''sample.new.txt'', Lnum = 1\<rparr>, \<lparr>Path = ''sample.new.txt'', Lnum = 2\<rparr>,
      \<lparr>Path = ''nonewline.new.txt'', Lnum = 1\<rparr>, \<lparr>Path = ''nonewline.new.txt'', Lnum = 3\<rparr>]
     diffContent 0 [] ModeAdded =
     [\<lparr>fc_CheckResult = \<lparr>Path = ''sample.new.txt'', Lnum = 1\<rparr>, InDiff = False, fc_LnumDiff = 0\<rparr>,
      \<lparr>fc_CheckResult = \<lparr>Path = ''sample.new.txt'', Lnum = 2\<rparr>, InDiff = True, fc_LnumDiff = 3\<rparr>,
      \<lparr>fc_CheckResult = \<lparr>Path = ''nonewline.new.txt'', Lnum = 1\<rparr>, InDiff = False, fc_LnumDiff = 0\<rparr>,
      \<lparr>fc_CheckResult = \<lparr>Path = ''nonewline.new.txt'', Lnum = 3\<rparr>, InDiff = True, fc_LnumDiff = 5\<rparr>] \<and>
   FilterCheck
     [\<lparr>Path = ''sample.new.txt'', Lnum = 1\<rparr>, \<lparr>Path = ''sample.new.txt'', Lnum = 2\<rparr>,
      \<lparr>Path = ''sample.new.txt'', Lnum = 3\<rparr>]
     diffContent 0 [] ModeDiffContext =
     [\<lparr>fc_CheckResult = \<lparr>Path = ''sample.new.txt'', Lnum = 1\<rparr>, InDiff = True, fc_LnumDiff = 1\<rparr>,
      \<lparr>fc_CheckResult = \<lparr>Path = ''sample.new.txt'', Lnum = 2\<rparr>, InDiff = True, fc_LnumDiff = 3\<rparr>,
      \<lparr>fc_CheckResult = \<lparr>Path = ''sample.new.txt'', Lnum = 3\<rparr>, InDiff = True, fc_LnumDiff = 4\<rparr>] \<and>
   FilterCheck [\<lparr>Path = ''nonewline.new.txt'', Lnum = 1\<rparr>] diffContent 0 [] ModeDiffContext =
     [\<lparr>fc_CheckResult = \<lparr>Path = ''nonewline.new.txt'', Lnum = 1\<rparr>, InDiff = True, fc_LnumDiff = 1\<rparr>]"
  by (simp add: FilterCheck_def filter_finding_def lookup_line_def index_sample normalize_sample Let_def)

section \<open>The modes of the filter (C7)\<close>

text \<open>
  Claim C7. For every list of findings, every diff, strip depth and directory, the
  findings kept under \<^verbatim>\<open>added\<close> are among those kept under \<^verbatim>\<open>diff_context\<close>, which
  are among those kept under \<^verbatim>\<open>nofilter\<close>; the last are all the findings.
\<close>

theorem mode_monotonicity:
  "kept results fds strip relDir ModeAdded \<subseteq> kept results fds strip relDir ModeDiffContext \<and>
   kept results fds strip relDir ModeDiffContext \<subseteq> kept results fds strip relDir ModeNoFilter \<and>
   kept results fds strip relDir ModeNoFilter = set results"
  by (auto simp: kept_eq nofilter_keeps dest: added_in_context)


text \<open>
  C7 on the sample diff: of the findings on lines 1, 2 and 14 of \<^verbatim>\<open>sample.new.txt\<close>,
  \<^verbatim>\<open>added\<close> keeps line 2 and \<^verbatim>\<open>diff_context\<close> keeps lines 1 and 2.
\<close>

theorem mode_monotonicity_witness:
  "kept [\<lparr>Path = ''sample.new.txt'', Lnum = 1\<rparr>, \<lparr>Path = ''sample.new.txt'', Lnum = 2\<rparr>,
         \<lparr>Path = ''sample.new.txt'', Lnum = 14\<rparr>] diffContent 0 [] ModeAdded
     \<subseteq> kept [\<lparr>Path = ''sample.new.txt'', Lnum = 1\<rparr>, \<lparr>Path = ''sample.new.txt'', Lnum = 2\<rparr>,
         \<lparr>Path = ''sample.new.txt'', Lnum = 14\<rparr>] diffContent 0 [] ModeDiffContext \<and>
   kept [\<lparr>Path = ''sample.new.txt'', Lnum = 1\<rparr>, \<lparr>Path = ''sample.new.txt'', Lnum = 2\<rparr>,
         \<lparr>Path = ''sample.new.txt'', Lnum = 14\<rparr>] diffContent 0 [] ModeAdded
     = {\<lparr>Path = ''sample.new.txt'', Lnum = 2\<rparr>} \<and>
   kept [\<lparr>Path = ''sample.new.txt'', Lnum = 1\<rparr>, \<lparr>Path = ''sample.new.txt'', Lnum = 2\<rparr>,
         \<lparr>Path = ''sample.new.txt'', Lnum = 14\<rparr>] diffContent 0 [] ModeDiffContext
     = {\<lparr>Path = ''sample.new.txt'', Lnum = 1\<rparr>, \<lparr>Path = ''sample.new.txt'', Lnum = 2\<rparr>}"
  using mode_monotonicity [of "[\<lparr>Path = ''sample.new.txt'', Lnum = 1\<rparr>,
         \<lparr>Path = ''sample.new.txt'', Lnum = 2\<rparr>, \<lparr>Path = ''sample.new.txt'', Lnum = 14\<rparr>]"
         diffContent 0 "[]"]
  by (simp add: kept_def FilterCheck_def filter_finding_def lookup_line_def index_sample
        normalize_sample Let_def)


section \<open>The check run that is refused (C5)\<close>

text \<open>
  Claim C5. When the diff was fetched and read, and the creation of the check run fails
  with a 403-class error, \<^verbatim>\<open>Check\<close> returns no error: it returns a response whose
  \<^verbatim>\<open>CheckedResults\<close> is not \<^verbatim>\<open>nil\<close>, it holds the locally computed results, and whose
  report URL is empty. (The creation call is made only for a diff that was read.)
\<close>

theorem Check_degrades_on_403:
  assumes "GetPullRequestDiff (gh ch) (Owner (req ch)) (Repo (req ch)) (PullRequest (req ch)) = Inr raw"
    and "parse raw = Inr fds"
    and "CreateCheckRun (gh ch) (Owner (req ch)) (Repo (req ch))
           (checkRunOptions conclude (req ch) fds) = Inl err"
    and "forbidden err"
  shows "\<exists>resp. Check parse conclude ch = Inr resp \<and>
                CheckedResults resp = Some (checkedResults (req ch) fds) \<and>
                CheckedResults resp \<noteq> None \<and>
                ReportURL resp = []"
  using assms by (simp add: Check_def Let_def)

text \<open>C5 on the client and the request of \<^verbatim>\<open>TestCheck_fail_check_with_403\<close>.\<close>

theorem Check_degrades_on_403_witness:
  "Check sampleParser (\<lambda>level annotations. ''neutral'')
     \<lparr>req = emptyRequest, gh = forbiddenClient\<rparr> =
   Inr \<lparr>ReportURL = [], CheckedResults = Some []\<rparr>"
proof -
  let ?ch = "\<lparr>req = emptyRequest, gh = forbiddenClient\<rparr>"
  have d: "GetPullRequestDiff (gh ?ch) (Owner (req ?ch)) (Repo (req ?ch)) (PullRequest (req ?ch))
             = Inr ''sampleDiff''"
    by (simp add: forbiddenClient_def)
  have p: "sampleParser ''sampleDiff'' = Inr diffContent"
    by (simp add: sampleParser_def)
  have c: "CreateCheckRun (gh ?ch) (Owner (req ?ch)) (Repo (req ?ch))
             (checkRunOptions (\<lambda>level annotations. ''neutral'') (req ?ch) diffContent)
             = Inl (ErrorResponse 403)"
    by (simp add: forbiddenClient_def)
  have f: "forbidden (ErrorResponse 403)"
    by (simp add: forbidden_def http_status_def)
  from Check_degrades_on_403 [where parse = sampleParser, OF d p c f]
  obtain resp where r: "Check sampleParser (\<lambda>level annotations. ''neutral'') ?ch = Inr resp"
    "CheckedResults resp = Some (checkedResults (req ?ch) diffContent)"
    "ReportURL resp = []"
    by blast
  have "checkedResults (req ?ch) diffContent = []"
    by (simp add: checkedResults_def emptyRequest_def FilterCheck_def)
  with r have "resp = \<lparr>ReportURL = [], CheckedResults = Some []\<rparr>"
    by (cases resp) simp
  with r(1) show ?thesis by simp
qed

section \<open>The terminal errors of the check (C6)\<close>




end
